theory Spec2Isabelle
  imports Complex_Main "HOL-Library.AList"
begin

section \<open>Values, rows and strings\<close>

text \<open>
  The table component and the CSV loaders work on plain JavaScript values. A cell is
  \<open>null\<close>, \<open>undefined\<close>, a number, a string or a boolean. Reading a property of a row can
  also yield what the row inherits from \<open>Object.prototype\<close>: one of its native functions
  (\<open>JFun\<close>, with the function's name) or, for the name \<open>__proto__\<close>, \<open>Object.prototype\<close>
  itself (\<open>JProto\<close>). The text of a native function is the engine's own; \<open>String\<close> gives
  the one-line form, and every engine's form has the keyword and the function's name. Numbers are modelled as integers (the only numbers the loaders ever
  store are row indices), strings as lists of 8-bit characters.

  A row is an object created by an object literal: its own properties, an association
  list from names to values in the order of their creation, and the flag \<open>proto\<close>, which
  says whether its prototype is still \<open>Object.prototype\<close> (it is \<open>null\<close> otherwise).
\<close>

datatype jsval = JNull | JUndefined | JNum int | JStr string | JBool bool | JFun string | JProto

datatype row = Row (props: "(string \<times> jsval) list") (proto: bool)

definition object_prototype :: "string \<Rightarrow> jsval option" where
  \<comment> \<open>The properties of \<open>Object.prototype\<close>: the accessor \<open>__proto__\<close> and the native
      functions.\<close>
  "object_prototype k =
     (if k = ''__proto__'' then Some JProto
      else if k = ''constructor'' then Some (JFun ''Object'')
      else if k \<in> set [''toString'', ''toLocaleString'', ''valueOf'', ''hasOwnProperty'',
                        ''isPrototypeOf'', ''propertyIsEnumerable'', ''__defineGetter__'',
                        ''__defineSetter__'', ''__lookupGetter__'', ''__lookupSetter__'']
      then Some (JFun k)
      else None)"

definition row_get :: "row \<Rightarrow> string \<Rightarrow> jsval" where
  \<comment> \<open>\<open>row[column]\<close>: an own property, else a property inherited from the prototype,
      else \<open>undefined\<close>.\<close>
  "row_get r k =
     (case map_of (props r) k of
        Some v \<Rightarrow> v
      | None \<Rightarrow>
          if proto r then (case object_prototype k of Some v \<Rightarrow> v | None \<Rightarrow> JUndefined)
          else JUndefined)"

definition cell_val :: "string option \<Rightarrow> jsval" where
  \<comment> \<open>What the loaders assign to a property: a string or \<open>null\<close>.\<close>
  "cell_val v = (case v of Some s \<Rightarrow> JStr s | None \<Rightarrow> JNull)"

definition row_set :: "row \<Rightarrow> string \<Rightarrow> string option \<Rightarrow> row" where
  \<comment> \<open>\<open>obj[key] = v\<close> for a string or \<open>null\<close>. The assignment overwrites an own property
      or appends a new one, except for the name \<open>__proto__\<close> on an object that inherits
      the accessor of that name: the setter makes \<open>null\<close> the prototype of the object,
      ignores a string, and creates no property.\<close>
  "row_set r k v =
     (if k = ''__proto__'' \<and> proto r
      then (case v of None \<Rightarrow> Row (props r) False | Some s \<Rightarrow> r)
      else Row (AList.update k (cell_val v) (props r)) (proto r))"

definition object_values :: "row \<Rightarrow> jsval list" where
  \<comment> \<open>\<open>Object.values(row)\<close>: the values of the own properties.\<close>
  "object_values r = map snd (props r)"

definition is_nullish :: "jsval \<Rightarrow> bool" where
  \<comment> \<open>\<open>v == null\<close>: true of \<open>null\<close> and of \<open>undefined\<close>.\<close>
  "is_nullish v = (v = JNull \<or> v = JUndefined)"

fun truthy :: "jsval \<Rightarrow> bool" where
  "truthy JNull = False"
| "truthy JUndefined = False"
| "truthy (JNum n) = (n \<noteq> 0)"
| "truthy (JStr s) = (s \<noteq> [])"
| "truthy (JBool b) = b"
| "truthy (JFun n) = True"
| "truthy JProto = True"

definition digit_char :: "nat \<Rightarrow> char" where
  "digit_char d = char_of (48 + d)"

fun string_of_nat :: "nat \<Rightarrow> string" where
  "string_of_nat n =
     (if n < 10 then [digit_char n] else string_of_nat (n div 10) @ [digit_char (n mod 10)])"

declare string_of_nat.simps [simp del]

fun String :: "jsval \<Rightarrow> string" where
  \<comment> \<open>\<open>String(value)\<close>.\<close>
  "String JNull = ''null''"
| "String JUndefined = ''undefined''"
| "String (JNum n) = (if n < 0 then ''-'' @ string_of_nat (nat (- n)) else string_of_nat (nat n))"
| "String (JStr s) = s"
| "String (JBool b) = (if b then ''true'' else ''false'')"
| "String (JFun n) = ''function '' @ n @ ''() { [native code] }''"
| "String JProto = ''[object Object]''"

definition is_space :: "char \<Rightarrow> bool" where
  \<comment> \<open>The white space and line terminators of \<open>trim\<close> that are single bytes:
      tab, line feed, vertical tab, form feed, carriage return, space.\<close>
  "is_space c = (c \<in> {CHR 0x09, CHR 0x0A, CHR 0x0B, CHR 0x0C, CHR 0x0D, CHR 0x20})"

definition trim :: "string \<Rightarrow> string" where
  "trim s = rev (dropWhile is_space (rev (dropWhile is_space s)))"

definition lower_char :: "char \<Rightarrow> char" where
  "lower_char c =
     (let n = (of_char c :: nat)
      in if 65 \<le> n \<and> n \<le> 90 then char_of (n + 32) else c)"

definition toLowerCase :: "string \<Rightarrow> string" where
  \<comment> \<open>\<open>toLowerCase\<close> on the ASCII letters.\<close>
  "toLowerCase s = map lower_char s"

fun includes_str :: "string \<Rightarrow> string \<Rightarrow> bool" where
  \<comment> \<open>\<open>s.includes(t)\<close>: \<open>t\<close> occurs in \<open>s\<close> as a contiguous run.\<close>
  "includes_str [] t = (t = [])"
| "includes_str (c # cs) t = (take (length t) (c # cs) = t \<or> includes_str cs t)"

fun split_str :: "char \<Rightarrow> string \<Rightarrow> string list" where
  \<comment> \<open>\<open>s.split(d)\<close> for a one-character separator: the empty string splits into
      one empty piece.\<close>
  "split_str d [] = [[]]"
| "split_str d (c # cs) =
     (if c = d then [] # split_str d cs
      else (c # hd (split_str d cs)) # tl (split_str d cs))"

section \<open>The table component: pagination\<close>

definition slice_js :: "'a list \<Rightarrow> int \<Rightarrow> int \<Rightarrow> 'a list" where
  \<comment> \<open>\<open>Array.prototype.slice(start, end)\<close>: a negative index counts from the end,
      both indices are clamped to the array.\<close>
  "slice_js xs start fin =
     (let len = int (length xs);
          k = (if start < 0 then max (len + start) 0 else min start len);
          final = (if fin < 0 then max (len + fin) 0 else min fin len)
      in take (nat (final - k)) (drop (nat k) xs))"

definition paginateData :: "row list \<Rightarrow> int \<Rightarrow> int \<Rightarrow> row list" where
  "paginateData data page sz =
     (let startIndex = (page - 1) * sz;
          endIndex = startIndex + sz
      in slice_js data startIndex endIndex)"

record tableInfo =
  totalRows :: int
  filteredRows :: int
  currentPage :: int
  totalPages :: int
  startRow :: int
  endRow :: int

definition tableInfo :: "row list \<Rightarrow> row list \<Rightarrow> int \<Rightarrow> int \<Rightarrow> tableInfo" where
  \<comment> \<open>The reactive \<open>tableInfo\<close> object; \<open>Math.ceil\<close> of the quotient is taken over the
      reals. In HOL \<open>x / 0 = 0\<close>, where JavaScript has \<open>Infinity\<close> or \<open>NaN\<close>: the
      model is meant for a non-zero page size.\<close>
  "tableInfo parsed filtered page pageSize =
     \<lparr> totalRows = int (length parsed),
       filteredRows = int (length filtered),
       currentPage = page,
       totalPages = \<lceil>real (length filtered) / real_of_int pageSize\<rceil>,
       startRow = (page - 1) * pageSize + 1,
       endRow = min (page * pageSize) (int (length filtered)) \<rparr>"

section \<open>The table component: filtering\<close>

definition rowMatches :: "bool \<Rightarrow> string \<Rightarrow> (string \<times> string) list \<Rightarrow> row \<Rightarrow> bool" where
  \<comment> \<open>The callback of \<open>data.filter\<close>: the global filter first, then every column
      filter; the first mismatch returns \<open>false\<close>.\<close>
  "rowMatches hasGlobalFilter globalFilterLower columnFilterEntries row =
     (if hasGlobalFilter \<and>
         \<not> list_ex (\<lambda>v. includes_str (toLowerCase (String v)) globalFilterLower)
             (object_values row)
      then False
      else
        list_all (\<lambda>(columnId, filterValue).
            let cell = row_get row columnId;
                cellValue = toLowerCase (String (if truthy cell then cell else JStr []));
                flt = toLowerCase filterValue
            in includes_str cellValue flt)
          columnFilterEntries)"

definition filterDataSimple :: "row list \<Rightarrow> string \<Rightarrow> (string \<times> string) list \<Rightarrow> row list" where
  \<comment> \<open>\<open>data\<close> is an array (the parameter is typed \<open>any[]\<close>), \<open>columnFilters\<close> the entries of
      the \<open>Map\<close> from column ids to filter texts, in insertion order. The function takes
      no schema and has no error result.\<close>
  "filterDataSimple data globalFilter columnFilters =
     (if data = [] then []
      else
        let globalFilterLower = toLowerCase (trim globalFilter);
            hasGlobalFilter = (0 < length globalFilterLower);
            columnFilterEntries = filter (\<lambda>(_, v). truthy (JStr (trim v))) columnFilters
        in
          if \<not> hasGlobalFilter \<and> length columnFilterEntries = 0 then data
          else filter (rowMatches hasGlobalFilter globalFilterLower columnFilterEntries) data)"

section \<open>The table component: sorting\<close>

text \<open>
  \<open>Array.prototype.sort\<close> is stable; for a comparator that is a consistent ordering its
  result is the stable sorted arrangement, which insertion from the right computes.
  (For an inconsistent comparator the language leaves the order to the implementation;
  the model then follows this insertion sort.)
\<close>

fun insort_cmp :: "('a \<Rightarrow> 'a \<Rightarrow> int) \<Rightarrow> 'a \<Rightarrow> 'a list \<Rightarrow> 'a list" where
  "insort_cmp cmp x [] = [x]"
| "insort_cmp cmp x (y # ys) =
     (if cmp x y \<le> 0 then x # y # ys else y # insort_cmp cmp x ys)"

definition sort_js :: "('a \<Rightarrow> 'a \<Rightarrow> int) \<Rightarrow> 'a list \<Rightarrow> 'a list" where
  "sort_js cmp xs = foldr (insort_cmp cmp) xs []"

fun lexCompare :: "string \<Rightarrow> string \<Rightarrow> int" where
  \<comment> \<open>A \<open>localeCompare\<close> for the examples: the lexicographic comparison by character
      code. \<open>String.prototype.localeCompare\<close> itself belongs to the platform and depends
      on the locale; on strings of decimal digits and on strings of lower-case ASCII
      letters, as in the examples, it orders as this function does.\<close>
  "lexCompare [] [] = 0"
| "lexCompare [] (y # ys) = - 1"
| "lexCompare (x # xs) [] = 1"
| "lexCompare (x # xs) (y # ys) =
     (if (of_char x :: nat) < of_char y then - 1
      else if (of_char y :: nat) < of_char x then 1
      else lexCompare xs ys)"

definition compareRows ::
  "(string \<Rightarrow> string \<Rightarrow> int) \<Rightarrow> string \<Rightarrow> string \<Rightarrow> row \<Rightarrow> row \<Rightarrow> int" where
  \<comment> \<open>The comparator passed to \<open>sort\<close>; \<open>localeCompare\<close> is a parameter.\<close>
  "compareRows localeCompare column direction a b =
     (let aVal = row_get a column;
          bVal = row_get b column
      in
        if is_nullish aVal \<and> is_nullish bVal then 0
        else if is_nullish aVal then (if direction = ''asc'' then - 1 else 1)
        else if is_nullish bVal then (if direction = ''asc'' then 1 else - 1)
        else
          let comparison =
                (case (aVal, bVal) of
                   (JNum x, JNum y) \<Rightarrow> x - y
                 | _ \<Rightarrow> localeCompare (String aVal) (String bVal))
          in if direction = ''asc'' then comparison else - comparison)"

definition sortData ::
  "(string \<Rightarrow> string \<Rightarrow> int) \<Rightarrow> row list \<Rightarrow> string \<Rightarrow> string \<Rightarrow> row list" where
  \<comment> \<open>\<open>data\<close> is an array, so of the guard \<open>!column || !data\<close> only the empty column name
      is left; \<open>[...data].sort(cmp)\<close> is the sorted copy.\<close>
  "sortData localeCompare data column direction =
     (if column = [] then data
      else sort_js (compareRows localeCompare column direction) data)"

section \<open>Loading a CSV file\<close>

record columnAnalysis =
  ca_name :: string
  data_type :: string
  ca_nullable :: bool
  unique_count :: nat
  null_percentage :: real
  sample_values :: "string list"

record column =
  col_id :: string
  col_name :: string
  col_type :: string
  col_nullable :: bool
  uniqueCount :: nat
  nullPercentage :: real
  sampleValues :: "string list"

record qualityReport =
  valid_rows :: int
  issues :: "string list"

record fileStats =
  fs_columnAnalysis :: "columnAnalysis list"
  fs_qualityReport :: qualityReport
  fs_fileContent :: string

definition prepareColumns :: "columnAnalysis list \<Rightarrow> column list" where
  \<comment> \<open>The column definitions built from the backend's column analysis.\<close>
  "prepareColumns cas =
     map (\<lambda>col. \<lparr> col_id = ca_name col, col_name = ca_name col, col_type = data_type col,
                    col_nullable = ca_nullable col, uniqueCount = unique_count col,
                    nullPercentage = null_percentage col,
                    sampleValues = sample_values col \<rparr>) cas"

definition nonblank_lines :: "string \<Rightarrow> string list" where
  \<comment> \<open>\<open>content.split("\\n").filter((line) => line.trim())\<close>.\<close>
  "nonblank_lines content =
     filter (\<lambda>line. truthy (JStr (trim line))) (split_str (CHR 0x0A) content)"

definition cell_at :: "string list \<Rightarrow> nat \<Rightarrow> string option" where
  \<comment> \<open>\<open>index < values.length ? values[index].trim() : null\<close>, in both loaders.\<close>
  "cell_at vals index = (if index < length vals then Some (trim (vals ! index)) else None)"

definition parseDataRow :: "column list \<Rightarrow> nat \<Rightarrow> string \<Rightarrow> row" where
  \<comment> \<open>The body of \<open>dataRows.map((row, index) => ...)\<close> in \<open>processSingleFile\<close>.\<close>
  "parseDataRow cols index line =
     (let vals = split_str CHR '','' line;
          obj = Row [(''id'', JNum (int index))] True
      in fold (\<lambda>(colIndex, col) obj. row_set obj (col_id col) (cell_at vals colIndex))
           (enumerate 0 cols) obj)"

definition parseDataRows :: "column list \<Rightarrow> string \<Rightarrow> row list" where
  \<comment> \<open>\<open>parsedData\<close> of \<open>processSingleFile\<close>: the first non-blank line is the header.\<close>
  "parseDataRows cols content =
     (let contentLines = nonblank_lines content;
          dataRows = drop 1 contentLines
      in map (\<lambda>(index, line). parseDataRow cols index line) (enumerate 0 dataRows))"

definition parseCSVContent :: "string \<Rightarrow> row list" where
  \<comment> \<open>The helper of the chart components: the header line names the columns.\<close>
  "parseCSVContent content =
     (let lines = nonblank_lines content
      in if length lines < 2 then []
         else
           let headers = map trim (split_str CHR '','' (lines ! 0))
           in map (\<lambda>line.
                 let vals = split_str CHR '','' line
                 in fold (\<lambda>(index, header) row. row_set row header (cell_at vals index))
                      (enumerate 0 headers) (Row [] True))
                (drop 1 lines))"

section \<open>The CSV data store\<close>

record csvFile =
  file_id :: string
  file_name :: string
  file_path :: string
  file_size :: nat
  rowCount :: "int option"
  columnCount :: "int option"

record csvDataStore =
  files :: "csvFile list"
  currentFileId :: "string option"
  parsedData :: "string \<rightharpoonup> row list"
  filteredData :: "string \<rightharpoonup> row list"
  columns :: "string \<rightharpoonup> column list"
  filters :: "string \<rightharpoonup> (string \<times> string) list"
  sortConfig :: "string \<rightharpoonup> string \<times> string"
  selectedRows :: "string \<rightharpoonup> nat list"
  fileStats :: "string \<rightharpoonup> fileStats"

definition initialStore :: csvDataStore where
  \<comment> \<open>The store as it is created: no files, empty maps.\<close>
  "initialStore =
     \<lparr> files = [], currentFileId = None, parsedData = Map.empty, filteredData = Map.empty,
       columns = Map.empty, filters = Map.empty, sortConfig = Map.empty,
       selectedRows = Map.empty, fileStats = Map.empty \<rparr>"

definition addFile :: "csvDataStore \<Rightarrow> string \<Rightarrow> string \<Rightarrow> string \<Rightarrow> nat \<Rightarrow> csvDataStore" where
  \<comment> \<open>\<open>addFile(fileData)\<close>; the identifier that the action makes up from the clock and a
      random number is the parameter \<open>fileId\<close>.\<close>
  "addFile store fileId name path sz =
     store\<lparr> files := files store @
       [\<lparr> file_id = fileId, file_name = name, file_path = path, file_size = sz,
          rowCount = None, columnCount = None \<rparr>] \<rparr>"

fun update_first :: "('a \<Rightarrow> bool) \<Rightarrow> ('a \<Rightarrow> 'a) \<Rightarrow> 'a list \<Rightarrow> 'a list" where
  \<comment> \<open>\<open>findIndex\<close>, then an assignment at that index when there is one.\<close>
  "update_first p f [] = []"
| "update_first p f (x # xs) = (if p x then f x # xs else x # update_first p f xs)"

definition updateFile :: "csvDataStore \<Rightarrow> string \<Rightarrow> int \<Rightarrow> int \<Rightarrow> csvDataStore" where
  \<comment> \<open>\<open>updateFile(fileId, { rowCount, columnCount })\<close>.\<close>
  "updateFile store fileId rc cc =
     store\<lparr> files :=
       update_first (\<lambda>f. file_id f = fileId)
         (\<lambda>f. f\<lparr> rowCount := Some rc, columnCount := Some cc \<rparr>) (files store) \<rparr>"

definition setCurrentFile :: "csvDataStore \<Rightarrow> string \<Rightarrow> csvDataStore" where
  "setCurrentFile store fileId = store\<lparr> currentFileId := Some fileId \<rparr>"

definition setParsedData ::
  "csvDataStore \<Rightarrow> string \<Rightarrow> row list \<Rightarrow> column list \<Rightarrow> csvDataStore" where
  "setParsedData store fileId data cols =
     store\<lparr> parsedData := (parsedData store)(fileId \<mapsto> data),
            filteredData := (filteredData store)(fileId \<mapsto> data),
            columns := (columns store)(fileId \<mapsto> cols) \<rparr>"

definition setFilteredData :: "csvDataStore \<Rightarrow> string \<Rightarrow> row list \<Rightarrow> csvDataStore" where
  "setFilteredData store fileId data =
     store\<lparr> filteredData := (filteredData store)(fileId \<mapsto> data) \<rparr>"

definition setFileStats :: "csvDataStore \<Rightarrow> string \<Rightarrow> fileStats \<Rightarrow> csvDataStore" where
  "setFileStats store fileId stats =
     store\<lparr> fileStats := (fileStats store)(fileId \<mapsto> stats) \<rparr>"

definition removeFile :: "csvDataStore \<Rightarrow> string \<Rightarrow> csvDataStore" where
  "removeFile store fileId =
     (let remaining = filter (\<lambda>f. file_id f \<noteq> fileId) (files store)
      in store\<lparr> files := remaining,
               parsedData := (parsedData store)(fileId := None),
               filteredData := (filteredData store)(fileId := None),
               columns := (columns store)(fileId := None),
               filters := (filters store)(fileId := None),
               sortConfig := (sortConfig store)(fileId := None),
               selectedRows := (selectedRows store)(fileId := None),
               fileStats := (fileStats store)(fileId := None),
               currentFileId :=
                 (if currentFileId store = Some fileId
                  then (if 0 < length remaining then Some (file_id (remaining ! 0)) else None)
                  else currentFileId store) \<rparr>)"

definition table_parsedData :: "csvDataStore \<Rightarrow> row list option" where
  \<comment> \<open>The table's reactive \<open>parsedData\<close>:
      \<open>currentFileId ? $csvDataStore.parsedData.get(currentFileId) : []\<close>. \<open>None\<close> is the
      \<open>undefined\<close> that \<open>Map.get\<close> returns for a key that is not in the map.\<close>
  "table_parsedData store =
     (case currentFileId store of
        None \<Rightarrow> Some []
      | Some fid \<Rightarrow> if fid = [] then Some [] else parsedData store fid)"

definition table_columns :: "csvDataStore \<Rightarrow> column list option" where
  "table_columns store =
     (case currentFileId store of
        None \<Rightarrow> Some []
      | Some fid \<Rightarrow> if fid = [] then Some [] else columns store fid)"

datatype error = FileContentNotAvailable | TypeError

definition processSingleFile ::
  "csvDataStore \<Rightarrow> string \<Rightarrow> string \<Rightarrow> int \<Rightarrow> int \<Rightarrow> columnAnalysis list
     \<Rightarrow> error + csvDataStore" where
  \<comment> \<open>The part of \<open>processSingleFile\<close> that fills the store, after the file has been added
      under \<open>fileId\<close> and the backend has returned the file content, the validation result
      (\<open>estimated_rows\<close>, \<open>column_count\<close>) and the column analysis. The \<open>throw\<close> for a
      missing content is the result \<open>Inl\<close>; what the error handler then does to the store
      is not modelled.\<close>
  "processSingleFile store fileId content estimated_rows column_count analysis =
     (let report = \<lparr> valid_rows = int (length (split_str (CHR 0x0A) content)) - 1,
                      issues = [] \<rparr>;
          cols = prepareColumns analysis;
          store1 = updateFile store fileId estimated_rows column_count
      in
        if content = [] then Inl FileContentNotAvailable
        else
          let parsed = parseDataRows cols content;
              store2 = setParsedData store1 fileId parsed cols;
              store3 = setFileStats store2 fileId
                         \<lparr> fs_columnAnalysis = analysis, fs_qualityReport = report,
                           fs_fileContent = content \<rparr>
          in Inr (setCurrentFile store3 fileId))"

section \<open>The table component: reacting to the store\<close>

text \<open>
  The variables of the table component that its reactive statements read and write. The
  flag \<open>t_filterDebounceTimer\<close> says that the timer of the debounced filter is armed.
\<close>

record tableState =
  t_globalFilter :: string
  t_columnFilters :: "(string \<times> string) list"
  t_sortColumn :: string
  t_sortDirection :: string
  t_currentPage :: int
  t_pageSize :: int
  t_filteredData :: "row list"
  t_lastFilteredData :: "row list"
  t_filterDebounceTimer :: bool


definition filter_block :: "row list option \<Rightarrow> tableState \<Rightarrow> tableState" where
  \<comment> \<open>The reactive statement \<open>$: if (parsedData && (globalFilter || columnFilters.size > 0))
      { ... } else if (parsedData) { ... }\<close>. With a filter it arms the timer (what the timer
      runs later is a step of its own); without one it takes over the parsed data. When
      \<open>parsedData\<close> is \<open>undefined\<close> neither branch is taken.\<close>
  "filter_block pdata st =
     (case pdata of
        None \<Rightarrow> st
      | Some pd \<Rightarrow>
          if 0 < length (t_globalFilter st) \<or> 0 < length (t_columnFilters st)
          then st\<lparr> t_filterDebounceTimer := True \<rparr>
          else st\<lparr> t_filteredData := pd, t_lastFilteredData := pd \<rparr>)"



section \<open>The query functions on arrays in memory\<close>

text \<open>
  JavaScript arrays are objects that are passed by reference. To state which arrays a
  function writes to, and whether its result is a new array, the arrays live in a heap:
  \<open>arrays h a\<close> is the content of the array at address \<open>a\<close>, and the addresses below
  \<open>used h\<close> are the allocated ones. The functions below are the query functions again,
  with each expression that creates an array (\<open>[]\<close>, \<open>filter\<close>, \<open>[...data]\<close>, \<open>slice\<close>)
  as an allocation and \<open>sort\<close> as an update in place.
\<close>

record heap =
  arrays :: "nat \<Rightarrow> row list"
  used :: nat

definition alloc :: "heap \<Rightarrow> row list \<Rightarrow> nat \<times> heap" where
  "alloc h xs = (used h, h\<lparr> arrays := (arrays h)(used h := xs), used := Suc (used h) \<rparr>)"

definition sort_in_place :: "heap \<Rightarrow> nat \<Rightarrow> (row \<Rightarrow> row \<Rightarrow> int) \<Rightarrow> nat \<times> heap" where
  \<comment> \<open>\<open>a.sort(cmp)\<close> sorts the array at \<open>a\<close> itself and returns \<open>a\<close>.\<close>
  "sort_in_place h a cmp = (a, h\<lparr> arrays := (arrays h)(a := sort_js cmp (arrays h a)) \<rparr>)"

definition filterDataSimple_ref ::
  "heap \<Rightarrow> nat \<Rightarrow> string \<Rightarrow> (string \<times> string) list \<Rightarrow> nat \<times> heap" where
  "filterDataSimple_ref h data globalFilter columnFilters =
     (if arrays h data = [] then alloc h []
      else
        let globalFilterLower = toLowerCase (trim globalFilter);
            hasGlobalFilter = (0 < length globalFilterLower);
            columnFilterEntries = filter (\<lambda>(_, v). truthy (JStr (trim v))) columnFilters
        in
          if \<not> hasGlobalFilter \<and> length columnFilterEntries = 0 then (data, h)
          else alloc h (filter (rowMatches hasGlobalFilter globalFilterLower columnFilterEntries)
                          (arrays h data)))"

definition sortData_ref ::
  "(string \<Rightarrow> string \<Rightarrow> int) \<Rightarrow> heap \<Rightarrow> nat \<Rightarrow> string \<Rightarrow> string \<Rightarrow> nat \<times> heap" where
  "sortData_ref localeCompare h data column direction =
     (if column = [] then (data, h)
      else
        let (copy, h1) = alloc h (arrays h data)
        in sort_in_place h1 copy (compareRows localeCompare column direction))"

definition paginateData_ref :: "heap \<Rightarrow> nat \<Rightarrow> int \<Rightarrow> int \<Rightarrow> nat \<times> heap" where
  "paginateData_ref h data page sz =
     (let startIndex = (page - 1) * sz;
          endIndex = startIndex + sz
      in alloc h (slice_js (arrays h data) startIndex endIndex))"

section \<open>Example data and auxiliary functions\<close>

definition example_column :: "string \<Rightarrow> string \<Rightarrow> column" where
  \<comment> \<open>A column definition with the given name and type, for the examples.\<close>
  "example_column n t =
     \<lparr> col_id = n, col_name = n, col_type = t, col_nullable = True, uniqueCount = 0,
       nullPercentage = 0, sampleValues = [] \<rparr>"

definition example_analysis :: "string \<Rightarrow> string \<Rightarrow> columnAnalysis" where
  \<comment> \<open>The backend's analysis of a column with the given name and type, for the examples.\<close>
  "example_analysis n t =
     \<lparr> ca_name = n, data_type = t, ca_nullable = True, unique_count = 0,
       null_percentage = 0, sample_values = [] \<rparr>"

fun join_str :: "char \<Rightarrow> string list \<Rightarrow> string" where
  \<comment> \<open>The pieces put together again with the separator between them.\<close>
  "join_str d [] = []"
| "join_str d [p] = p"
| "join_str d (p # q # ps) = p @ d # join_str d (q # ps)"

section \<open>Properties of pagination\<close>

lemma length_slice_js_le:
  "0 \<le> fin - start \<Longrightarrow> length (slice_js xs start fin) \<le> nat (fin - start)"
  by (auto simp: slice_js_def Let_def)

lemma slice_js_beyond:
  "int (length xs) \<le> start \<Longrightarrow> slice_js xs start fin = []"
  by (auto simp: slice_js_def Let_def)

lemma totalPages_bounds:
  assumes "1 \<le> P"
  shows "int T \<le> \<lceil>real T / real_of_int P\<rceil> * P \<and> (\<lceil>real T / real_of_int P\<rceil> - 1) * P < int T"
proof -
  let ?q = "real T / real_of_int P"
  have P: "0 < real_of_int P" using assms by simp
  have "?q \<le> of_int \<lceil>?q\<rceil>" by (rule le_of_int_ceiling)
  then have "real T \<le> real_of_int \<lceil>?q\<rceil> * real_of_int P"
    using P by (simp only: pos_divide_le_eq)
  then have "real_of_int (int T) \<le> real_of_int (\<lceil>?q\<rceil> * P)" by simp
  then have a: "int T \<le> \<lceil>?q\<rceil> * P" by (simp only: of_int_le_iff)
  have "real_of_int (\<lceil>?q\<rceil> - 1) < ?q" using ceiling_correct[of ?q] by simp
  then have "real_of_int (\<lceil>?q\<rceil> - 1) * real_of_int P < real T"
    using P by (simp only: pos_less_divide_eq)
  then have "real_of_int ((\<lceil>?q\<rceil> - 1) * P) < real_of_int (int T)" by simp
  then have b: "(\<lceil>?q\<rceil> - 1) * P < int T" by (simp only: of_int_less_iff)
  show ?thesis using a b by simp
qed

lemma length_slice_js_add:
  "0 \<le> n \<Longrightarrow> length (slice_js xs s (s + n)) \<le> nat n"
  by (auto simp: slice_js_def Let_def)

lemma length_paginateData_le:
  assumes "1 \<le> P"
  shows "length (paginateData data page P) \<le> nat P"
proof -
  have "0 \<le> P" using assms by simp
  then show ?thesis
    unfolding paginateData_def Let_def by (rule length_slice_js_add)
qed

text \<open>
  Claim C4. For a filtered row list of length \<open>T\<close> and a page size \<open>P \<ge> 1\<close>, the reported
  number of pages is the least integer \<open>n\<close> with \<open>n * P \<ge> T\<close> (that is, \<open>ceil(T / P)\<close>),
  every page holds at most \<open>P\<close> rows, and page \<open>totalPages + 1\<close> is the empty row set while
  the reported number of filtered rows is still \<open>T\<close>. The functions are total: nothing is
  raised.
\<close>

theorem pagination_boundary:
  assumes "1 \<le> P"
  shows "int (length filtered) \<le> totalPages (tableInfo parsed filtered page P) * P
       \<and> (totalPages (tableInfo parsed filtered page P) - 1) * P < int (length filtered)
       \<and> length (paginateData filtered page P) \<le> nat P
       \<and> paginateData filtered (totalPages (tableInfo parsed filtered page P) + 1) P = []
       \<and> filteredRows (tableInfo parsed filtered
             (totalPages (tableInfo parsed filtered page P) + 1) P) = int (length filtered)"
proof -
  let ?tp = "totalPages (tableInfo parsed filtered page P)"
  have tp: "?tp = \<lceil>real (length filtered) / real_of_int P\<rceil>"
    by (simp add: tableInfo_def)
  have b: "int (length filtered) \<le> ?tp * P \<and> (?tp - 1) * P < int (length filtered)"
    unfolding tp using assms by (rule totalPages_bounds)
  have len: "length (paginateData filtered page P) \<le> nat P"
    using assms by (rule length_paginateData_le)
  have "paginateData filtered (?tp + 1) P = slice_js filtered (?tp * P) (?tp * P + P)"
    by (simp add: paginateData_def Let_def)
  also have "\<dots> = []" using b by (intro slice_js_beyond) simp
  finally have empty: "paginateData filtered (?tp + 1) P = []" .
  have tot: "filteredRows (tableInfo parsed filtered (?tp + 1) P) = int (length filtered)"
    by (simp add: tableInfo_def)
  show ?thesis using b len empty tot by blast
qed

text \<open>Three filtered rows, two per page: two pages, and page three is empty.\<close>

theorem pagination_boundary_witness:
  "(1::int) \<le> 2
   \<and> totalPages (tableInfo [Row [] True, Row [] True, Row [] True] [Row [] True, Row [] True, Row [] True] 1 2) = 2
   \<and> length (paginateData [Row [] True, Row [] True, Row [] True] 2 2) = 1
   \<and> paginateData [Row [] True, Row [] True, Row [] True] 3 2 = []
   \<and> filteredRows (tableInfo [Row [] True, Row [] True, Row [] True] [Row [] True, Row [] True, Row [] True] 3 2) = 3"
  using pagination_boundary [of 2 "[Row [] True, Row [] True, Row [] True]" "[Row [] True, Row [] True, Row [] True]" 1]
  by (simp add: tableInfo_def paginateData_def slice_js_def)

section \<open>Properties of the CSV loaders\<close>

lemmas parse_eval = parseDataRows_def parseDataRow_def parseCSVContent_def nonblank_lines_def
  trim_def is_space_def row_set_def row_get_def cell_at_def cell_val_def example_column_def
  object_values_def object_prototype_def

lemma props_row_set_other:
  "k' \<noteq> k \<Longrightarrow> map_of (props (row_set r k v)) k' = map_of (props r) k'"
  by (simp add: row_set_def update_conv' split: option.splits)

lemma props_row_set_same:
  "k \<noteq> ''__proto__'' \<Longrightarrow> map_of (props (row_set r k v)) k = Some (cell_val v)"
  by (simp add: row_set_def update_conv')

lemma row_get_own: "map_of (props r) k = Some v \<Longrightarrow> row_get r k = v"
  by (simp add: row_get_def)

lemma keys_row_set:
  "fst ` set (props (row_set r k v)) \<subseteq> insert k (fst ` set (props r))"
proof -
  have "fst ` set (AList.update k w ps) \<subseteq> insert k (fst ` set ps)" for w and ps :: "(string \<times> jsval) list"
    by (induction ps) (auto split: if_splits)
  then show ?thesis by (auto simp: row_set_def split: option.splits)
qed

lemma fold_row_set_other:
  "k \<notin> key ` set xs \<Longrightarrow>
   map_of (props (fold (\<lambda>(i, x) obj. row_set obj (key x) (cell i)) (enumerate n xs) obj0)) k
     = map_of (props obj0) k"
  by (induction xs arbitrary: n obj0) (auto simp: props_row_set_other)

lemma fold_row_set_last:
  "i < length xs \<Longrightarrow> key (xs ! i) \<noteq> ''__proto__'' \<Longrightarrow>
   (\<forall>j. i < j \<and> j < length xs \<longrightarrow> key (xs ! j) \<noteq> key (xs ! i)) \<Longrightarrow>
   map_of (props (fold (\<lambda>(i, x) obj. row_set obj (key x) (cell i)) (enumerate n xs) obj0))
     (key (xs ! i)) = Some (cell_val (cell (n + i)))"
proof (induction xs arbitrary: n obj0 i)
  case Nil
  then show ?case by simp
next
  case (Cons x xs)
  show ?case
  proof (cases i)
    case 0
    have "key x \<notin> key ` set xs"
    proof
      assume "key x \<in> key ` set xs"
      then obtain m where "m < length xs" and "key (xs ! m) = key x"
        by (auto simp: in_set_conv_nth)
      then show False using Cons.prems(3) 0 by (auto dest: spec [where x = "Suc m"])
    qed
    then show ?thesis using 0 Cons.prems(2)
      by (simp add: fold_row_set_other props_row_set_same)
  next
    case (Suc m)
    have a: "m < length xs" and b: "key (xs ! m) \<noteq> ''__proto__''"
      using Cons.prems(1,2) Suc by simp_all
    have c: "\<forall>j. m < j \<and> j < length xs \<longrightarrow> key (xs ! j) \<noteq> key (xs ! m)"
    proof (intro allI impI)
      fix j assume "m < j \<and> j < length xs"
      then have "i < Suc j \<and> Suc j < length (x # xs)" using Suc by simp
      then have "key ((x # xs) ! Suc j) \<noteq> key ((x # xs) ! i)" using Cons.prems(3) by blast
      then show "key (xs ! j) \<noteq> key (xs ! m)" using Suc by simp
    qed
    from Cons.IH [OF a b c] show ?thesis using Suc by simp
  qed
qed

lemma last_occurrence:
  assumes "i < length xs"
  shows "\<exists>j. i \<le> j \<and> j < length xs \<and> key (xs ! j) = key (xs ! i)
           \<and> (\<forall>j'. j < j' \<and> j' < length xs \<longrightarrow> key (xs ! j') \<noteq> key (xs ! j))"
proof -
  define P where "P j \<longleftrightarrow> j < length xs \<and> key (xs ! j) = key (xs ! i)" for j
  have Pi: "P i" using assms by (simp add: P_def)
  have bound: "y \<le> length xs" if "P y" for y using that by (simp add: P_def)
  have PG: "P (Greatest P)" using Pi bound by (rule GreatestI_nat)
  have le: "y \<le> Greatest P" if "P y" for y using that bound by (rule Greatest_le_nat)
  have "\<forall>j'. Greatest P < j' \<and> j' < length xs \<longrightarrow> key (xs ! j') \<noteq> key (xs ! Greatest P)"
  proof (intro allI impI notI)
    fix j' assume a: "Greatest P < j' \<and> j' < length xs" and e: "key (xs ! j') = key (xs ! Greatest P)"
    then have "P j'" using PG by (simp add: P_def)
    then have "j' \<le> Greatest P" by (rule le)
    with a show False by simp
  qed
  moreover have "i \<le> Greatest P" using Pi by (rule le)
  ultimately show ?thesis using PG unfolding P_def by blast
qed

lemma fold_row_set_get:
  assumes "i < length xs" and "key (xs ! i) \<noteq> ''__proto__''"
    and "\<forall>j. i < j \<and> j < length xs \<longrightarrow> key (xs ! j) \<noteq> key (xs ! i)"
  shows "row_get (fold (\<lambda>(i, x) obj. row_set obj (key x) (cell i)) (enumerate 0 xs) obj0)
           (key (xs ! i)) = cell_val (cell i)"
  using fold_row_set_last [OF assms, of cell 0 obj0] by (simp add: row_get_own)

lemma fold_row_set_padded:
  assumes "i < length xs" and "key (xs ! i) \<noteq> ''__proto__''"
    and "\<And>m. i \<le> m \<Longrightarrow> cell m = None"
  shows "row_get (fold (\<lambda>(i, x) obj. row_set obj (key x) (cell i)) (enumerate 0 xs) obj0)
           (key (xs ! i)) = JNull"
proof -
  obtain j where j: "i \<le> j" "j < length xs" "key (xs ! j) = key (xs ! i)"
      "\<forall>j'. j < j' \<and> j' < length xs \<longrightarrow> key (xs ! j') \<noteq> key (xs ! j)"
    using last_occurrence [OF assms(1), of key] by blast
  have "row_get (fold (\<lambda>(i, x) obj. row_set obj (key x) (cell i)) (enumerate 0 xs) obj0)
           (key (xs ! j)) = cell_val (cell j)"
    using j(2) assms(2) j(4) unfolding j(3) [symmetric] by (rule fold_row_set_get)
  then show ?thesis using assms(3) [OF j(1)] j(3) by (simp add: cell_val_def)
qed

lemma fold_row_set_keys:
  "fst ` set (props (fold (\<lambda>(i, x) obj. row_set obj (key x) (cell i)) (enumerate n xs) obj0))
     \<subseteq> key ` set xs \<union> fst ` set (props obj0)"
proof (induction xs arbitrary: n obj0)
  case Nil
  then show ?case by simp
next
  case (Cons x xs)
  have "fst ` set (props (fold (\<lambda>(i, x) obj. row_set obj (key x) (cell i)) (enumerate (Suc n) xs)
                  (row_set obj0 (key x) (cell n))))
        \<subseteq> key ` set xs \<union> fst ` set (props (row_set obj0 (key x) (cell n)))"
    by (rule Cons.IH)
  also have "\<dots> \<subseteq> key ` set xs \<union> insert (key x) (fst ` set (props obj0))"
    using keys_row_set [of obj0 "key x" "cell n"] by blast
  finally show ?case by auto
qed

lemma parseDataRows_nth:
  assumes "Suc j < length (nonblank_lines content)"
  shows "parseDataRows cols content ! j =
     fold (\<lambda>(colIndex, col) obj. row_set obj (col_id col) (cell_at (split_str CHR '','' (nonblank_lines content ! Suc j)) colIndex))
       (enumerate 0 cols) (Row [(''id'', JNum (int j))] True)"
  using assms by (simp add: parseDataRows_def parseDataRow_def Let_def nth_enumerate_eq)

lemma parseCSVContent_nth:
  assumes "Suc j < length (nonblank_lines content)"
  shows "parseCSVContent content ! j =
     fold (\<lambda>(index, header) row. row_set row ((\<lambda>h. h) header) (cell_at (split_str CHR '','' (nonblank_lines content ! Suc j)) index))
       (enumerate 0 (map trim (split_str CHR '','' (nonblank_lines content ! 0)))) (Row [] True)"
proof -
  have d: "drop 1 (nonblank_lines content) ! j = nonblank_lines content ! Suc j"
    using assms by simp
  have l: "\<not> length (nonblank_lines content) < 2" and j: "j < length (drop 1 (nonblank_lines content))"
    using assms by simp_all
  show ?thesis
    unfolding parseCSVContent_def Let_def using l
    by (simp only: if_False nth_map [OF j] d)
qed

lemma cell_at_beyond: "length vals \<le> i \<Longrightarrow> i \<le> m \<Longrightarrow> cell_at vals m = None"
  by (simp add: cell_at_def)

lemma parseDataRows_cell:
  assumes "Suc j < length (nonblank_lines content)" and "i < length cols"
    and "col_id (cols ! i) \<noteq> ''__proto__''" and "(\<forall>i'. i < i' \<and> i' < length cols \<longrightarrow> col_id (cols ! i') \<noteq> col_id (cols ! i))"
  shows "row_get (parseDataRows cols content ! j) (col_id (cols ! i)) = cell_val (cell_at (split_str CHR '','' (nonblank_lines content ! Suc j)) i)"
  unfolding parseDataRows_nth [OF assms(1)] using assms(2-4) by (rule fold_row_set_get)

lemma parseCSVContent_cell:
  assumes "Suc j < length (nonblank_lines content)" and "i < length (map trim (split_str CHR '','' (nonblank_lines content ! 0)))"
    and "map trim (split_str CHR '','' (nonblank_lines content ! 0)) ! i \<noteq> ''__proto__''" and "(\<forall>i'. i < i' \<and> i' < length (map trim (split_str CHR '','' (nonblank_lines content ! 0))) \<longrightarrow> map trim (split_str CHR '','' (nonblank_lines content ! 0)) ! i' \<noteq> map trim (split_str CHR '','' (nonblank_lines content ! 0)) ! i)"
  shows "row_get (parseCSVContent content ! j) (map trim (split_str CHR '','' (nonblank_lines content ! 0)) ! i) = cell_val (cell_at (split_str CHR '','' (nonblank_lines content ! Suc j)) i)"
  unfolding parseCSVContent_nth [OF assms(1)]
  using fold_row_set_get [of i "map trim (split_str CHR '','' (nonblank_lines content ! 0))" "\<lambda>h. h" "cell_at (split_str CHR '','' (nonblank_lines content ! Suc j))" "Row [] True"] assms(2-4)
  by simp

text \<open>
  Claim C1, as amended. It speaks of the columns that are not named \<open>__proto__\<close> (an
  assignment to that name goes to the prototype's setter and creates no property). In
  every data row, a column at a position beyond the row's last field reads \<open>null\<close>. A column
  at position \<open>i\<close>, when no later column has the same name, reads the trimmed field \<open>i\<close> of
  the row, and \<open>null\<close> when the row has no field \<open>i\<close>. The row has no properties but \<open>id\<close> and
  the column names, so the fields beyond the last column are dropped; nothing is
  concatenated into the last column. This holds for the rows that \<open>processSingleFile\<close>
  stores and, without \<open>id\<close>, for those of \<open>parseCSVContent\<close>.
\<close>

theorem short_rows_padded_excess_dropped:
  assumes "Suc j < length (nonblank_lines content)"
  shows "(i < length cols \<and> col_id (cols ! i) \<noteq> ''__proto__'' \<and> length (split_str CHR '','' (nonblank_lines content ! Suc j)) \<le> i \<longrightarrow>
            row_get (parseDataRows cols content ! j) (col_id (cols ! i)) = JNull)
       \<and> (i < length cols \<and> col_id (cols ! i) \<noteq> ''__proto__'' \<and> (\<forall>i'. i < i' \<and> i' < length cols \<longrightarrow> col_id (cols ! i') \<noteq> col_id (cols ! i)) \<longrightarrow>
            row_get (parseDataRows cols content ! j) (col_id (cols ! i)) =
              (if i < length (split_str CHR '','' (nonblank_lines content ! Suc j)) then JStr (trim (split_str CHR '','' (nonblank_lines content ! Suc j) ! i)) else JNull))
       \<and> fst ` set (props (parseDataRows cols content ! j)) \<subseteq> insert ''id'' (col_id ` set cols)
       \<and> (i < length (map trim (split_str CHR '','' (nonblank_lines content ! 0))) \<and> map trim (split_str CHR '','' (nonblank_lines content ! 0)) ! i \<noteq> ''__proto__'' \<and> length (split_str CHR '','' (nonblank_lines content ! Suc j)) \<le> i \<longrightarrow>
            row_get (parseCSVContent content ! j) (map trim (split_str CHR '','' (nonblank_lines content ! 0)) ! i) = JNull)
       \<and> (i < length (map trim (split_str CHR '','' (nonblank_lines content ! 0))) \<and> map trim (split_str CHR '','' (nonblank_lines content ! 0)) ! i \<noteq> ''__proto__'' \<and> (\<forall>i'. i < i' \<and> i' < length (map trim (split_str CHR '','' (nonblank_lines content ! 0))) \<longrightarrow> map trim (split_str CHR '','' (nonblank_lines content ! 0)) ! i' \<noteq> map trim (split_str CHR '','' (nonblank_lines content ! 0)) ! i) \<longrightarrow>
            row_get (parseCSVContent content ! j) (map trim (split_str CHR '','' (nonblank_lines content ! 0)) ! i) =
              (if i < length (split_str CHR '','' (nonblank_lines content ! Suc j)) then JStr (trim (split_str CHR '','' (nonblank_lines content ! Suc j) ! i)) else JNull))
       \<and> fst ` set (props (parseCSVContent content ! j)) \<subseteq> set (map trim (split_str CHR '','' (nonblank_lines content ! 0)))"
proof (intro conjI impI)
  assume a: "i < length cols \<and> col_id (cols ! i) \<noteq> ''__proto__'' \<and> length (split_str CHR '','' (nonblank_lines content ! Suc j)) \<le> i"
  then have a1: "i < length cols" and a2: "col_id (cols ! i) \<noteq> ''__proto__''"
    and a3: "length (split_str CHR '','' (nonblank_lines content ! Suc j)) \<le> i" by blast+
  show "row_get (parseDataRows cols content ! j) (col_id (cols ! i)) = JNull"
    unfolding parseDataRows_nth [OF assms]
    using a1 a2 cell_at_beyond [OF a3] by (rule fold_row_set_padded)
next
  assume "i < length cols \<and> col_id (cols ! i) \<noteq> ''__proto__'' \<and> (\<forall>i'. i < i' \<and> i' < length cols \<longrightarrow> col_id (cols ! i') \<noteq> col_id (cols ! i))"
  then show "row_get (parseDataRows cols content ! j) (col_id (cols ! i)) =
              (if i < length (split_str CHR '','' (nonblank_lines content ! Suc j)) then JStr (trim (split_str CHR '','' (nonblank_lines content ! Suc j) ! i)) else JNull)"
    using parseDataRows_cell [OF assms, of i cols] by (simp add: cell_at_def cell_val_def)
next
  show "fst ` set (props (parseDataRows cols content ! j)) \<subseteq> insert ''id'' (col_id ` set cols)"
    unfolding parseDataRows_nth [OF assms]
    using fold_row_set_keys [of col_id "cell_at (split_str CHR '','' (nonblank_lines content ! Suc j))" 0 cols "Row [(''id'', JNum (int j))] True"]
    by auto
next
  assume a: "i < length (map trim (split_str CHR '','' (nonblank_lines content ! 0))) \<and> map trim (split_str CHR '','' (nonblank_lines content ! 0)) ! i \<noteq> ''__proto__'' \<and> length (split_str CHR '','' (nonblank_lines content ! Suc j)) \<le> i"
  then have a1: "i < length (map trim (split_str CHR '','' (nonblank_lines content ! 0)))" and a2: "map trim (split_str CHR '','' (nonblank_lines content ! 0)) ! i \<noteq> ''__proto__''"
    and a3: "length (split_str CHR '','' (nonblank_lines content ! Suc j)) \<le> i" by blast+
  show "row_get (parseCSVContent content ! j) (map trim (split_str CHR '','' (nonblank_lines content ! 0)) ! i) = JNull"
    unfolding parseCSVContent_nth [OF assms]
    using fold_row_set_padded [of i "map trim (split_str CHR '','' (nonblank_lines content ! 0))" "\<lambda>h. h" "cell_at (split_str CHR '','' (nonblank_lines content ! Suc j))" "Row [] True",
            OF a1 a2 cell_at_beyond [OF a3]]
    by simp
next
  assume "i < length (map trim (split_str CHR '','' (nonblank_lines content ! 0))) \<and> map trim (split_str CHR '','' (nonblank_lines content ! 0)) ! i \<noteq> ''__proto__'' \<and> (\<forall>i'. i < i' \<and> i' < length (map trim (split_str CHR '','' (nonblank_lines content ! 0))) \<longrightarrow> map trim (split_str CHR '','' (nonblank_lines content ! 0)) ! i' \<noteq> map trim (split_str CHR '','' (nonblank_lines content ! 0)) ! i)"
  then have a1: "i < length (map trim (split_str CHR '','' (nonblank_lines content ! 0)))" and a2: "map trim (split_str CHR '','' (nonblank_lines content ! 0)) ! i \<noteq> ''__proto__''" and a3: "(\<forall>i'. i < i' \<and> i' < length (map trim (split_str CHR '','' (nonblank_lines content ! 0))) \<longrightarrow> map trim (split_str CHR '','' (nonblank_lines content ! 0)) ! i' \<noteq> map trim (split_str CHR '','' (nonblank_lines content ! 0)) ! i)"
    by blast+
  have "row_get (parseCSVContent content ! j) (map trim (split_str CHR '','' (nonblank_lines content ! 0)) ! i) = cell_val (cell_at (split_str CHR '','' (nonblank_lines content ! Suc j)) i)"
    using assms a1 a2 a3 by (rule parseCSVContent_cell)
  then show "row_get (parseCSVContent content ! j) (map trim (split_str CHR '','' (nonblank_lines content ! 0)) ! i) =
              (if i < length (split_str CHR '','' (nonblank_lines content ! Suc j)) then JStr (trim (split_str CHR '','' (nonblank_lines content ! Suc j) ! i)) else JNull)"
    by (simp add: cell_at_def cell_val_def)
next
  show "fst ` set (props (parseCSVContent content ! j)) \<subseteq> set (map trim (split_str CHR '','' (nonblank_lines content ! 0)))"
    unfolding parseCSVContent_nth [OF assms]
    using fold_row_set_keys [of "\<lambda>h. h" "cell_at (split_str CHR '','' (nonblank_lines content ! Suc j))" 0 "map trim (split_str CHR '','' (nonblank_lines content ! 0))" "Row [] True"]
    by auto
qed

text \<open>
  The header \<open>a,b\<close> and the rows \<open>1,2,3\<close> and \<open>4\<close>: the second row is padded with \<open>null\<close> in
  column \<open>b\<close>.
\<close>

theorem short_rows_padded_excess_dropped_witness:
  "Suc 1 < length (nonblank_lines (''a,b'' @ [CHR 0x0A] @ ''1,2,3'' @ [CHR 0x0A] @ ''4''))
   \<and> (1::nat) < length [example_column ''a'' ''string'', example_column ''b'' ''string'']
   \<and> col_id ([example_column ''a'' ''string'', example_column ''b'' ''string''] ! 1) \<noteq> ''__proto__''
   \<and> length (split_str CHR '','' (nonblank_lines (''a,b'' @ [CHR 0x0A] @ ''1,2,3'' @ [CHR 0x0A] @ ''4'') ! Suc 1)) \<le> 1
   \<and> (1::nat) < length (map trim (split_str CHR '','' (nonblank_lines (''a,b'' @ [CHR 0x0A] @ ''1,2,3'' @ [CHR 0x0A] @ ''4'') ! 0)))
   \<and> row_get (parseDataRows [example_column ''a'' ''string'', example_column ''b'' ''string''] (''a,b'' @ [CHR 0x0A] @ ''1,2,3'' @ [CHR 0x0A] @ ''4'') ! 1) ''b'' = JNull
   \<and> row_get (parseCSVContent (''a,b'' @ [CHR 0x0A] @ ''1,2,3'' @ [CHR 0x0A] @ ''4'') ! 1) ''b'' = JNull
   \<and> row_get (parseDataRows [example_column ''a'' ''string'', example_column ''b'' ''string''] (''a,b'' @ [CHR 0x0A] @ ''1,2,3'' @ [CHR 0x0A] @ ''4'') ! 0) ''b'' = JStr ''2''"
  using short_rows_padded_excess_dropped [of 1 "(''a,b'' @ [CHR 0x0A] @ ''1,2,3'' @ [CHR 0x0A] @ ''4'')" 1 "[example_column ''a'' ''string'', example_column ''b'' ''string'']"]
        short_rows_padded_excess_dropped [of 0 "(''a,b'' @ [CHR 0x0A] @ ''1,2,3'' @ [CHR 0x0A] @ ''4'')" 1 "[example_column ''a'' ''string'', example_column ''b'' ''string'']"]
  by (simp add: parse_eval)

text \<open>
  Claim (''a,b'' @ [CHR 0x0A] @ ''1,2,3'' @ [CHR 0x0A] @ ''4'') as stated fails. For the header \<open>a,b\<close> and the row \<open>1,2,3\<close> the last column \<open>b\<close>
  holds \<open>2\<close>: the excess field \<open>3\<close> is not concatenated into it, it is dropped. And for the
  header \<open>a,__proto__\<close> and the row \<open>1\<close> the missing trailing column is not padded with
  \<open>null\<close>: the row gets no such property, it loses its prototype, and the column reads
  \<open>undefined\<close>.
\<close>

theorem excess_fields_concatenated_counterexample:
  "parseDataRows [example_column ''a'' ''string'', example_column ''b'' ''string''] (''a,b'' @ [CHR 0x0A] @ ''1,2,3'')
     = [Row [(''id'', JNum 0), (''a'', JStr ''1''), (''b'', JStr ''2'')] True]
   \<and> parseCSVContent (''a,b'' @ [CHR 0x0A] @ ''1,2,3'')
     = [Row [(''a'', JStr ''1''), (''b'', JStr ''2'')] True]
   \<and> parseCSVContent (''a,__proto__'' @ [CHR 0x0A] @ ''1'')
     = [Row [(''a'', JStr ''1'')] False]
   \<and> row_get (Row [(''a'', JStr ''1'')] False) ''__proto__'' = JUndefined"
  by (simp add: parse_eval)

lemma split_str_nonempty: "split_str d s \<noteq> []"
  by (induction s) auto

lemma split_str_no_sep: "w \<in> set (split_str d s) \<Longrightarrow> d \<notin> set w"
proof (induction s arbitrary: w)
  case Nil
  then show ?case by simp
next
  case (Cons c cs)
  obtain p ps where ps: "split_str d cs = p # ps"
    using split_str_nonempty [of d cs] by (cases "split_str d cs") auto
  show ?case
  proof (cases "c = d")
    case True
    with Cons show ?thesis by auto
  next
    case False
    with Cons.prems ps have "w = c # p \<or> w \<in> set ps" by simp
    moreover have "d \<notin> set p" and "\<And>u. u \<in> set ps \<Longrightarrow> d \<notin> set u"
      using Cons.IH ps by simp_all
    ultimately show ?thesis using False by auto
  qed
qed

lemma join_split_str: "join_str d (split_str d s) = s"
proof (induction s)
  case Nil
  then show ?case by simp
next
  case (Cons c cs)
  obtain q qs where sp: "split_str d cs = q # qs"
    using split_str_nonempty [of d cs] by (cases "split_str d cs") auto
  show ?case
  proof (cases "c = d")
    case True
    then show ?thesis using Cons sp by simp
  next
    case False
    then show ?thesis using Cons sp by (cases qs) simp_all
  qed
qed

lemma trim_decompose:
  "p = takeWhile is_space p @ trim p @ rev (takeWhile is_space (rev (dropWhile is_space p)))"
proof -
  let ?q = "dropWhile is_space p"
  have "rev (takeWhile is_space (rev ?q) @ dropWhile is_space (rev ?q)) = rev (rev ?q)"
    by (simp only: takeWhile_dropWhile_id)
  then have "rev (dropWhile is_space (rev ?q)) @ rev (takeWhile is_space (rev ?q)) = ?q"
    by (simp only: rev_append rev_rev_ident)
  then have q: "trim p @ rev (takeWhile is_space (rev ?q)) = ?q"
    by (simp only: trim_def)
  have "takeWhile is_space p @ ?q = p" by (rule takeWhile_dropWhile_id)
  then show ?thesis by (simp only: q)
qed

lemma trim_keeps:
  "\<exists>a b. p = a @ trim p @ b \<and> (\<forall>c \<in> set a \<union> set b. is_space c)"
proof (intro exI conjI)
  show "p = takeWhile is_space p @ trim p @ rev (takeWhile is_space (rev (dropWhile is_space p)))"
    by (rule trim_decompose)
  show "\<forall>c \<in> set (takeWhile is_space p)
            \<union> set (rev (takeWhile is_space (rev (dropWhile is_space p)))). is_space c"
    by (auto dest: set_takeWhileD)
qed

text \<open>
  Claim (''a,b'' @ [CHR 0x0A] @ [CHR 0x22] @ ''x,y'' @ [CHR 0x22] @ '',z''), as amended. A data row is cut at every comma, whether or not the comma lies
  between double quotes: the pieces contain no comma and, joined with commas, are the row
  again, so every other character, a quote among them, stays in its piece. Trimming
  removes white space from the two ends of a piece and nothing else. A column that is not
  named \<open>__proto__\<close>, at a position \<open>i\<close> where the row has a piece and after which no
  column has the same name, holds the trimmed piece \<open>i\<close>: a quoted field that contains a
  comma is spread over several columns, and the quote characters stay in the cells.
\<close>

theorem rows_cut_at_every_comma:
  assumes "Suc j < length (nonblank_lines content)"
  shows "join_str CHR '','' (split_str CHR '','' (nonblank_lines content ! Suc j)) = nonblank_lines content ! Suc j
       \<and> (\<forall>p \<in> set (split_str CHR '','' (nonblank_lines content ! Suc j)). CHR '','' \<notin> set p)
       \<and> (\<forall>p \<in> set (split_str CHR '','' (nonblank_lines content ! Suc j)). \<exists>a b. p = a @ trim p @ b \<and> (\<forall>c \<in> set a \<union> set b. is_space c))
       \<and> (i < length (split_str CHR '','' (nonblank_lines content ! Suc j)) \<and> i < length cols \<and> col_id (cols ! i) \<noteq> ''__proto__'' \<and> (\<forall>i'. i < i' \<and> i' < length cols \<longrightarrow> col_id (cols ! i') \<noteq> col_id (cols ! i)) \<longrightarrow>
            row_get (parseDataRows cols content ! j) (col_id (cols ! i)) = JStr (trim (split_str CHR '','' (nonblank_lines content ! Suc j) ! i)))
       \<and> (i < length (split_str CHR '','' (nonblank_lines content ! Suc j)) \<and> i < length (map trim (split_str CHR '','' (nonblank_lines content ! 0))) \<and> map trim (split_str CHR '','' (nonblank_lines content ! 0)) ! i \<noteq> ''__proto__'' \<and> (\<forall>i'. i < i' \<and> i' < length (map trim (split_str CHR '','' (nonblank_lines content ! 0))) \<longrightarrow> map trim (split_str CHR '','' (nonblank_lines content ! 0)) ! i' \<noteq> map trim (split_str CHR '','' (nonblank_lines content ! 0)) ! i) \<longrightarrow>
            row_get (parseCSVContent content ! j) (map trim (split_str CHR '','' (nonblank_lines content ! 0)) ! i) = JStr (trim (split_str CHR '','' (nonblank_lines content ! Suc j) ! i)))"
proof (intro conjI impI ballI)
  show "join_str CHR '','' (split_str CHR '','' (nonblank_lines content ! Suc j)) = nonblank_lines content ! Suc j"
    by (rule join_split_str)
next
  fix p assume "p \<in> set (split_str CHR '','' (nonblank_lines content ! Suc j))"
  then show "CHR '','' \<notin> set p" by (rule split_str_no_sep)
next
  fix p show "\<exists>a b. p = a @ trim p @ b \<and> (\<forall>c \<in> set a \<union> set b. is_space c)"
    by (rule trim_keeps)
next
  assume "i < length (split_str CHR '','' (nonblank_lines content ! Suc j)) \<and> i < length cols \<and> col_id (cols ! i) \<noteq> ''__proto__'' \<and> (\<forall>i'. i < i' \<and> i' < length cols \<longrightarrow> col_id (cols ! i') \<noteq> col_id (cols ! i))"
  then have a0: "i < length (split_str CHR '','' (nonblank_lines content ! Suc j))" and a1: "i < length cols"
    and a2: "col_id (cols ! i) \<noteq> ''__proto__''" and a3: "(\<forall>i'. i < i' \<and> i' < length cols \<longrightarrow> col_id (cols ! i') \<noteq> col_id (cols ! i))" by blast+
  have "row_get (parseDataRows cols content ! j) (col_id (cols ! i)) = cell_val (cell_at (split_str CHR '','' (nonblank_lines content ! Suc j)) i)"
    using assms a1 a2 a3 by (rule parseDataRows_cell)
  then show "row_get (parseDataRows cols content ! j) (col_id (cols ! i)) = JStr (trim (split_str CHR '','' (nonblank_lines content ! Suc j) ! i))"
    using a0 by (simp add: cell_at_def cell_val_def)
next
  assume "i < length (split_str CHR '','' (nonblank_lines content ! Suc j)) \<and> i < length (map trim (split_str CHR '','' (nonblank_lines content ! 0))) \<and> map trim (split_str CHR '','' (nonblank_lines content ! 0)) ! i \<noteq> ''__proto__'' \<and> (\<forall>i'. i < i' \<and> i' < length (map trim (split_str CHR '','' (nonblank_lines content ! 0))) \<longrightarrow> map trim (split_str CHR '','' (nonblank_lines content ! 0)) ! i' \<noteq> map trim (split_str CHR '','' (nonblank_lines content ! 0)) ! i)"
  then have a0: "i < length (split_str CHR '','' (nonblank_lines content ! Suc j))" and a1: "i < length (map trim (split_str CHR '','' (nonblank_lines content ! 0)))"
    and a2: "map trim (split_str CHR '','' (nonblank_lines content ! 0)) ! i \<noteq> ''__proto__''" and a3: "(\<forall>i'. i < i' \<and> i' < length (map trim (split_str CHR '','' (nonblank_lines content ! 0))) \<longrightarrow> map trim (split_str CHR '','' (nonblank_lines content ! 0)) ! i' \<noteq> map trim (split_str CHR '','' (nonblank_lines content ! 0)) ! i)" by blast+
  have "row_get (parseCSVContent content ! j) (map trim (split_str CHR '','' (nonblank_lines content ! 0)) ! i) = cell_val (cell_at (split_str CHR '','' (nonblank_lines content ! Suc j)) i)"
    using assms a1 a2 a3 by (rule parseCSVContent_cell)
  then show "row_get (parseCSVContent content ! j) (map trim (split_str CHR '','' (nonblank_lines content ! 0)) ! i) = JStr (trim (split_str CHR '','' (nonblank_lines content ! Suc j) ! i))"
    using a0 by (simp add: cell_at_def cell_val_def)
qed

text \<open>
  The row \<open>"x,y",z\<close> under the header \<open>a,b\<close>: its pieces are \<open>"x\<close>, \<open>y"\<close> and \<open>z\<close>, and the cell
  of column \<open>b\<close> is \<open>y"\<close>.
\<close>

theorem rows_cut_at_every_comma_witness:
  "Suc 0 < length (nonblank_lines (''a,b'' @ [CHR 0x0A] @ [CHR 0x22] @ ''x,y'' @ [CHR 0x22] @ '',z''))
   \<and> split_str CHR '','' (nonblank_lines (''a,b'' @ [CHR 0x0A] @ [CHR 0x22] @ ''x,y'' @ [CHR 0x22] @ '',z'') ! Suc 0)
       = [[CHR 0x22, CHR ''x''], [CHR ''y'', CHR 0x22], ''z'']
   \<and> (1::nat) < length [example_column ''a'' ''string'', example_column ''b'' ''string'']
   \<and> col_id ([example_column ''a'' ''string'', example_column ''b'' ''string''] ! 1) \<noteq> ''__proto__''
   \<and> (1::nat) < length (map trim (split_str CHR '','' (nonblank_lines (''a,b'' @ [CHR 0x0A] @ [CHR 0x22] @ ''x,y'' @ [CHR 0x22] @ '',z'') ! 0)))
   \<and> row_get (parseDataRows [example_column ''a'' ''string'', example_column ''b'' ''string''] (''a,b'' @ [CHR 0x0A] @ [CHR 0x22] @ ''x,y'' @ [CHR 0x22] @ '',z'') ! 0) ''b'' = JStr [CHR ''y'', CHR 0x22]
   \<and> row_get (parseCSVContent (''a,b'' @ [CHR 0x0A] @ [CHR 0x22] @ ''x,y'' @ [CHR 0x22] @ '',z'') ! 0) ''b'' = JStr [CHR ''y'', CHR 0x22]"
  using rows_cut_at_every_comma [of 0 "(''a,b'' @ [CHR 0x0A] @ [CHR 0x22] @ ''x,y'' @ [CHR 0x22] @ '',z'')" 1 "[example_column ''a'' ''string'', example_column ''b'' ''string'']"]
  by (simp add: parse_eval)

text \<open>
  Claim (''a,b'' @ [CHR 0x0A] @ [CHR 0x22] @ ''x,y'' @ [CHR 0x22] @ '',z'') as stated fails: the quoted field \<open>"x,y"\<close> is not one value. It is cut at its
  comma into \<open>"x\<close> and \<open>y"\<close>, which keep the quote characters, and \<open>z\<close> is dropped.
\<close>

theorem quoted_field_counterexample:
  "parseDataRows [example_column ''a'' ''string'', example_column ''b'' ''string''] (''a,b'' @ [CHR 0x0A] @ [CHR 0x22] @ ''x,y'' @ [CHR 0x22] @ '',z'')
     = [Row [(''id'', JNum 0), (''a'', JStr [CHR 0x22, CHR ''x'']),
             (''b'', JStr [CHR ''y'', CHR 0x22])] True]
   \<and> parseCSVContent (''a,b'' @ [CHR 0x0A] @ [CHR 0x22] @ ''x,y'' @ [CHR 0x22] @ '',z'')
     = [Row [(''a'', JStr [CHR 0x22, CHR ''x'']), (''b'', JStr [CHR ''y'', CHR 0x22])] True]"
  by (simp add: parse_eval)

section \<open>Properties of sorting\<close>

lemma set_insort_cmp: "set (insort_cmp cmp x ys) = insert x (set ys)"
  by (induction ys) auto

lemma set_sort_js: "set (sort_js cmp xs) = set xs"
  by (induction xs) (simp_all add: sort_js_def set_insort_cmp)

lemma sort_js_Cons: "sort_js cmp (x # xs) = insort_cmp cmp x (sort_js cmp xs)"
  by (simp add: sort_js_def)

lemma insort_cmp_front:
  "(\<And>y. y \<in> set ys \<Longrightarrow> cmp x y \<le> 0) \<Longrightarrow> insort_cmp cmp x ys = x # ys"
  by (cases ys) auto

lemma insort_cmp_skip:
  "(\<And>y. y \<in> set ns \<Longrightarrow> 0 < cmp x y) \<Longrightarrow>
   insort_cmp cmp x (ns @ ys) = ns @ insort_cmp cmp x ys"
proof (induction ns)
  case Nil
  then show ?case by simp
next
  case (Cons n ns)
  have "0 < cmp x n" using Cons.prems by simp
  moreover have "insort_cmp cmp x (ns @ ys) = ns @ insort_cmp cmp x ys"
    using Cons.IH Cons.prems by simp
  ultimately show ?case by simp
qed

lemma insort_cmp_within:
  "(\<And>y. y \<in> set ns \<Longrightarrow> cmp x y \<le> 0) \<Longrightarrow>
   insort_cmp cmp x (vs @ ns) = insort_cmp cmp x vs @ ns"
proof (induction vs)
  case Nil
  then show ?case by (cases ns) auto
next
  case (Cons v vs)
  then show ?case by auto
qed

lemma sort_js_low_first:
  assumes low: "\<And>x y. N x \<Longrightarrow> cmp x y \<le> 0"
      and high: "\<And>x y. \<not> N x \<Longrightarrow> N y \<Longrightarrow> 0 < cmp x y"
  shows "sort_js cmp xs = filter N xs @ sort_js cmp (filter (\<lambda>x. \<not> N x) xs)"
proof (induction xs)
  case Nil
  then show ?case by (simp add: sort_js_def)
next
  case (Cons x xs)
  show ?case
  proof (cases "N x")
    case True
    then have "insort_cmp cmp x (sort_js cmp xs) = x # sort_js cmp xs"
      using low by (intro insort_cmp_front) simp
    with True Cons show ?thesis by (simp add: sort_js_Cons)
  next
    case False
    then have "insort_cmp cmp x (filter N xs @ sort_js cmp (filter (\<lambda>x. \<not> N x) xs))
        = filter N xs @ insort_cmp cmp x (sort_js cmp (filter (\<lambda>x. \<not> N x) xs))"
      using high by (intro insort_cmp_skip) simp
    with False Cons show ?thesis by (simp add: sort_js_Cons)
  qed
qed

lemma sort_js_high_last:
  assumes eq: "\<And>x y. N x \<Longrightarrow> N y \<Longrightarrow> cmp x y \<le> 0"
      and up: "\<And>x y. N x \<Longrightarrow> \<not> N y \<Longrightarrow> 0 < cmp x y"
      and down: "\<And>x y. \<not> N x \<Longrightarrow> N y \<Longrightarrow> cmp x y \<le> 0"
  shows "sort_js cmp xs = sort_js cmp (filter (\<lambda>x. \<not> N x) xs) @ filter N xs"
proof (induction xs)
  case Nil
  then show ?case by (simp add: sort_js_def)
next
  case (Cons x xs)
  let ?vs = "sort_js cmp (filter (\<lambda>x. \<not> N x) xs)"
  show ?case
  proof (cases "N x")
    case True
    have "insort_cmp cmp x (?vs @ filter N xs) = ?vs @ insort_cmp cmp x (filter N xs)"
      using True up by (intro insort_cmp_skip) (simp add: set_sort_js)
    also have "insort_cmp cmp x (filter N xs) = x # filter N xs"
      using True eq by (intro insort_cmp_front) simp
    finally show ?thesis using True Cons by (simp add: sort_js_Cons)
  next
    case False
    have "insort_cmp cmp x (?vs @ filter N xs) = insort_cmp cmp x ?vs @ filter N xs"
      using False down by (intro insort_cmp_within) simp
    with False Cons show ?thesis by (simp add: sort_js_Cons)
  qed
qed

lemma compareRows_asc:
  "is_nullish (row_get a c) \<Longrightarrow> compareRows lc c ''asc'' a b \<le> 0"
  "\<not> is_nullish (row_get a c) \<Longrightarrow> is_nullish (row_get b c) \<Longrightarrow> 0 < compareRows lc c ''asc'' a b"
  unfolding compareRows_def Let_def by (simp_all only: if_True if_False split: if_splits) auto


lemma compareRows_desc:
  assumes "d \<noteq> ''asc''"
  shows "is_nullish (row_get a c) \<Longrightarrow> is_nullish (row_get b c) \<Longrightarrow> compareRows lc c d a b \<le> 0"
    and "is_nullish (row_get a c) \<Longrightarrow> \<not> is_nullish (row_get b c) \<Longrightarrow> 0 < compareRows lc c d a b"
    and "\<not> is_nullish (row_get a c) \<Longrightarrow> is_nullish (row_get b c) \<Longrightarrow> compareRows lc c d a b \<le> 0"
  unfolding compareRows_def Let_def using assms by (simp_all only: if_True if_False split: if_splits) auto


lemma sortData_asc_split:
  assumes "column \<noteq> []"
  shows "sortData lc data column ''asc'' =
     filter (\<lambda>r. is_nullish (row_get r column)) data
     @ sortData lc (filter (\<lambda>r. \<not> is_nullish (row_get r column)) data) column ''asc''"
proof -
  have "sort_js (compareRows lc column ''asc'') data =
     filter (\<lambda>r. is_nullish (row_get r column)) data
     @ sort_js (compareRows lc column ''asc'')
         (filter (\<lambda>r. \<not> is_nullish (row_get r column)) data)"
    by (rule sort_js_low_first) (rule compareRows_asc, assumption+)+
  then show ?thesis using assms unfolding sortData_def by (simp only: if_False)
qed

lemma sortData_desc_split:
  assumes "column \<noteq> []" and "direction \<noteq> ''asc''"
  shows "sortData lc data column direction =
     sortData lc (filter (\<lambda>r. \<not> is_nullish (row_get r column)) data) column direction
     @ filter (\<lambda>r. is_nullish (row_get r column)) data"
proof -
  have "sort_js (compareRows lc column direction) data =
     sort_js (compareRows lc column direction)
         (filter (\<lambda>r. \<not> is_nullish (row_get r column)) data)
     @ filter (\<lambda>r. is_nullish (row_get r column)) data"
    by (rule sort_js_high_last) (rule compareRows_desc [OF assms(2)], assumption+)+
  then show ?thesis using assms(1) unfolding sortData_def by (simp only: if_False)
qed

lemma sortData_set: "set (sortData lc data column direction) = set data"
  by (simp add: sortData_def set_sort_js)


lemma filter_all: "(\<And>x. x \<in> set xs \<Longrightarrow> P x) \<Longrightarrow> filter P xs = xs"
  by (induction xs) auto

lemma filter_none: "(\<And>x. x \<in> set xs \<Longrightarrow> \<not> P x) \<Longrightarrow> filter P xs = []"
  by (induction xs) auto

lemmas sort_eval = sortData_def sort_js_def compareRows_def row_get_def is_nullish_def
  object_prototype_def

text \<open>
  Claim C2, as amended. When a sort column is set, the rows whose value in that column is
  \<open>null\<close> or \<open>undefined\<close> are placed according to the direction: before all other rows
  when the direction is \<open>asc\<close>, after all other rows otherwise. This holds for every
  \<open>localeCompare\<close>.
\<close>

theorem sortData_nulls_by_direction:
  assumes "column \<noteq> []"
  shows "sortData lc data column direction =
     (if direction = ''asc''
      then filter (\<lambda>r. is_nullish (row_get r column)) (sortData lc data column direction)
           @ filter (\<lambda>r. \<not> is_nullish (row_get r column)) (sortData lc data column direction)
      else filter (\<lambda>r. \<not> is_nullish (row_get r column)) (sortData lc data column direction)
           @ filter (\<lambda>r. is_nullish (row_get r column)) (sortData lc data column direction))"
proof -
  let ?N = "\<lambda>r. is_nullish (row_get r column)"
  let ?V = "\<lambda>r. \<not> is_nullish (row_get r column)"
  let ?ns = "filter ?N data"
  let ?vs = "sortData lc (filter ?V data) column direction"
  have ns: "filter ?N ?ns = ?ns" "filter ?V ?ns = []"
    by (rule filter_all, simp) (rule filter_none, simp)
  have vs: "filter ?V ?vs = ?vs" "filter ?N ?vs = []"
    by (rule filter_all, simp add: sortData_set) (rule filter_none, simp add: sortData_set)
  let ?out = "sortData lc data column direction"
  show ?thesis
  proof (cases "direction = ''asc''")
    case True
    have out: "?out = ?ns @ ?vs"
      unfolding True using assms by (rule sortData_asc_split)
    have "filter ?N (?ns @ ?vs) @ filter ?V (?ns @ ?vs) = ?ns @ ?vs"
      using ns vs by (simp only: filter_append append_Nil append_Nil2)
    then have g: "filter ?N ?out @ filter ?V ?out = ?out"
      by (simp only: out)
    show ?thesis by (subst if_P, rule True, rule g [symmetric])
  next
    case False
    have out: "?out = ?vs @ ?ns"
      using assms False by (rule sortData_desc_split)
    have "filter ?V (?vs @ ?ns) @ filter ?N (?vs @ ?ns) = ?vs @ ?ns"
      using ns vs by (simp only: filter_append append_Nil append_Nil2)
    then have g: "filter ?V ?out @ filter ?N ?out = ?out"
      by (simp only: out)
    show ?thesis by (subst if_not_P, rule False, rule g [symmetric])
  qed
qed

text \<open>Three rows, one of them without a value, sorted in both directions.\<close>

theorem sortData_nulls_by_direction_witness:
  "''n'' \<noteq> []
   \<and> sortData lexCompare [Row [(''n'', JStr ''x'')] True, Row [(''n'', JNull)] True, Row [(''n'', JStr ''a'')] True] ''n'' ''asc''
       = [Row [(''n'', JNull)] True, Row [(''n'', JStr ''a'')] True, Row [(''n'', JStr ''x'')] True]
   \<and> sortData lexCompare [Row [(''n'', JStr ''x'')] True, Row [(''n'', JNull)] True, Row [(''n'', JStr ''a'')] True] ''n'' ''desc''
       = [Row [(''n'', JStr ''x'')] True, Row [(''n'', JStr ''a'')] True, Row [(''n'', JNull)] True]"
  using sortData_nulls_by_direction
          [of "''n''" lexCompare "[Row [(''n'', JStr ''x'')] True, Row [(''n'', JNull)] True, Row [(''n'', JStr ''a'')] True]" "''asc''"]
        sortData_nulls_by_direction
          [of "''n''" lexCompare "[Row [(''n'', JStr ''x'')] True, Row [(''n'', JNull)] True, Row [(''n'', JStr ''a'')] True]" "''desc''"]
  by (simp add: sort_eval)

text \<open>
  Claim C2 as stated fails: sorted ascending, the row whose value is \<open>null\<close> comes first,
  before the row with the value \<open>x\<close>.
\<close>

theorem nulls_last_ascending_counterexample:
  "sortData lexCompare [Row [(''n'', JStr ''x'')] True, Row [(''n'', JNull)] True] ''n'' ''asc''
     = [Row [(''n'', JNull)] True, Row [(''n'', JStr ''x'')] True]"
  by (simp add: sort_eval)

text \<open>
  Claim C8. The loader stores every cell as a string, so the values of a numeric column
  never reach the numeric branch of the comparator: for the file with the column \<open>n\<close> and
  the values \<open>9\<close> and \<open>10\<close>, sorting ascending puts \<open>10\<close> before \<open>9\<close>.
\<close>

theorem numeric_column_sorted_as_text:
  "parseDataRows [example_column ''n'' ''number''] (''n'' @ [CHR 0x0A] @ ''9'' @ [CHR 0x0A] @ ''10'')
     = [Row [(''id'', JNum 0), (''n'', JStr ''9'')] True, Row [(''id'', JNum 1), (''n'', JStr ''10'')] True]
   \<and> sortData lexCompare
        (parseDataRows [example_column ''n'' ''number'']
           (''n'' @ [CHR 0x0A] @ ''9'' @ [CHR 0x0A] @ ''10'')) ''n'' ''asc''
     = [Row [(''id'', JNum 1), (''n'', JStr ''10'')] True, Row [(''id'', JNum 0), (''n'', JStr ''9'')] True]"
  by (simp add: parse_eval sort_eval)


section \<open>Properties of filtering\<close>

lemma includes_str_empty_cell: "includes_str [] t = (t = [])"
  by simp

lemma trim_nonempty: "trim f \<noteq> [] \<Longrightarrow> f \<noteq> []"
  by (auto simp: trim_def)

lemma falsy_cell_fails_filter:
  assumes "(c, f) \<in> set entries" and "f \<noteq> []" and "\<not> truthy (row_get r c)"
  shows "\<not> rowMatches h g entries r"
proof -
  have "\<not> (case (c, f) of (columnId, filterValue) \<Rightarrow>
            let cell = row_get r columnId;
                cellValue = toLowerCase (String (if truthy cell then cell else JStr []));
                flt = toLowerCase filterValue
            in includes_str cellValue flt)"
    using assms(2,3) by (simp add: toLowerCase_def)
  then have "\<not> list_all (\<lambda>(columnId, filterValue).
            let cell = row_get r columnId;
                cellValue = toLowerCase (String (if truthy cell then cell else JStr []));
                flt = toLowerCase filterValue
            in includes_str cellValue flt) entries"
    using assms(1) unfolding list_all_iff by blast
  then show ?thesis unfolding rowMatches_def by (simp only: if_False if_True split: if_splits) simp
qed

lemma active_filter_kept:
  assumes "(c, f) \<in> set columnFilters" and "trim f \<noteq> []"
  shows "(c, f) \<in> set (filter (\<lambda>(_, v). truthy (JStr (trim v))) columnFilters)"
  using assms by simp

lemma filterDataSimple_member:
  assumes "(c, f) \<in> set columnFilters" and "trim f \<noteq> []"
    and "r \<in> set (filterDataSimple data globalFilter columnFilters)"
  shows "rowMatches (0 < length (toLowerCase (trim globalFilter))) (toLowerCase (trim globalFilter))
           (filter (\<lambda>(_, v). truthy (JStr (trim v))) columnFilters) r"
proof -
  have ne: "length (filter (\<lambda>(_, v). truthy (JStr (trim v))) columnFilters) \<noteq> 0"
    using active_filter_kept [OF assms(1,2)] by (metis length_0_conv empty_iff empty_set)
  have "data \<noteq> []" using assms(3) by (auto simp: filterDataSimple_def)
  then have "filterDataSimple data globalFilter columnFilters =
      filter (rowMatches (0 < length (toLowerCase (trim globalFilter)))
               (toLowerCase (trim globalFilter))
               (filter (\<lambda>(_, v). truthy (JStr (trim v))) columnFilters)) data"
    using ne unfolding filterDataSimple_def Let_def by (simp only: if_False simp_thms)
  with assms(3) show ?thesis by simp
qed

lemmas filter_eval = filterDataSimple_def rowMatches_def toLowerCase_def lower_char_def
  trim_def is_space_def row_get_def object_values_def object_prototype_def

text \<open>
  Claim C10. A cell that is \<open>null\<close>, \<open>undefined\<close> or the empty string is replaced by the
  empty string before it is matched, and the empty string contains no non-blank filter
  text: a row with such a cell in a column that has an active (non-blank) filter is
  never in the result.
\<close>

theorem blank_cell_never_matches:
  assumes "(c, f) \<in> set columnFilters" and "trim f \<noteq> []"
    and "row_get r c = JNull \<or> row_get r c = JUndefined \<or> row_get r c = JStr []"
  shows "r \<notin> set (filterDataSimple data globalFilter columnFilters)"
proof
  assume "r \<in> set (filterDataSimple data globalFilter columnFilters)"
  then have m: "rowMatches (0 < length (toLowerCase (trim globalFilter)))
           (toLowerCase (trim globalFilter))
           (filter (\<lambda>(_, v). truthy (JStr (trim v))) columnFilters) r"
    using assms(1,2) by (intro filterDataSimple_member)
  have "\<not> truthy (row_get r c)" using assms(3) by auto
  with m show False
    using falsy_cell_fails_filter [OF active_filter_kept [OF assms(1,2)] trim_nonempty [OF assms(2)]]
    by blast
qed

text \<open>
  Two rows and the filters \<open>name: a\<close>, \<open>age: 3\<close>: the row whose \<open>age\<close> is \<open>null\<close> is excluded,
  the other row is kept.
\<close>

theorem blank_cell_never_matches_witness:
  "(''age'', ''3'') \<in> set [(''name'', ''a''), (''age'', ''3'')] \<and> trim ''3'' \<noteq> []
   \<and> row_get (Row [(''name'', JStr ''Cara''), (''age'', JNull)] True) ''age'' = JNull
   \<and> Row [(''name'', JStr ''Cara''), (''age'', JNull)] True
       \<notin> set (filterDataSimple
                [Row [(''name'', JStr ''Cara''), (''age'', JNull)] True,
                 Row [(''name'', JStr ''Dan''), (''age'', JStr ''30'')] True] []
                [(''name'', ''a''), (''age'', ''3'')])
   \<and> filterDataSimple
                [Row [(''name'', JStr ''Cara''), (''age'', JNull)] True,
                 Row [(''name'', JStr ''Dan''), (''age'', JStr ''30'')] True] []
                [(''name'', ''a''), (''age'', ''3'')]
       = [Row [(''name'', JStr ''Dan''), (''age'', JStr ''30'')] True]"
  using blank_cell_never_matches
    [of "''age''" "''3''" "[(''name'', ''a''), (''age'', ''3'')]"
        "Row [(''name'', JStr ''Cara''), (''age'', JNull)] True"
        "[Row [(''name'', JStr ''Cara''), (''age'', JNull)] True,
          Row [(''name'', JStr ''Dan''), (''age'', JStr ''30'')] True]" "[]"]
  by (simp add: filter_eval)


lemma row_get_absent:
  assumes "c \<notin> fst ` set (props r)" and "object_prototype c = None"
  shows "row_get r c = JUndefined"
proof -
  have "map_of (props r) c = None" using assms(1) by (simp add: map_of_eq_None_iff)
  then show ?thesis using assms(2) by (simp add: row_get_def)
qed

text \<open>
  Claim C3, as amended. \<open>filterDataSimple\<close> has no error result. A non-blank filter on a
  column that no row of the data has as a property of its own, and whose name is not the
  name of a property of \<open>Object.prototype\<close>, makes the result the empty row set.
\<close>

theorem missing_column_filter_returns_no_rows:
  assumes "(c, f) \<in> set columnFilters" and "trim f \<noteq> []"
    and "\<forall>r \<in> set data. c \<notin> fst ` set (props r)" and "object_prototype c = None"
  shows "filterDataSimple data globalFilter columnFilters = []"
proof -
  have "r \<notin> set (filterDataSimple data globalFilter columnFilters)" for r
  proof
    assume in_out: "r \<in> set (filterDataSimple data globalFilter columnFilters)"
    then have m: "rowMatches (0 < length (toLowerCase (trim globalFilter)))
           (toLowerCase (trim globalFilter))
           (filter (\<lambda>(_, v). truthy (JStr (trim v))) columnFilters) r"
      using assms(1,2) by (intro filterDataSimple_member)
    have "set (filterDataSimple data globalFilter columnFilters) \<subseteq> set data"
      by (auto simp: filterDataSimple_def Let_def)
    with in_out assms(3) have "c \<notin> fst ` set (props r)" by blast
    then have "row_get r c = JUndefined" using assms(4) by (rule row_get_absent)
    then have "\<not> truthy (row_get r c)" by simp
    with m show False
      using falsy_cell_fails_filter [OF active_filter_kept [OF assms(1,2)] trim_nonempty [OF assms(2)]]
      by blast
  qed
  then show ?thesis by (meson last_in_set)
qed

text \<open>Rows with the only column \<open>name\<close>, filtered on the column \<open>age\<close>.\<close>

theorem missing_column_filter_returns_no_rows_witness:
  "(''age'', ''3'') \<in> set [(''age'', ''3'')] \<and> trim ''3'' \<noteq> []
   \<and> ''age'' \<notin> fst ` set (props (Row [(''name'', JStr ''Alice'')] True))
   \<and> ''age'' \<notin> fst ` set (props (Row [(''name'', JStr ''Bob'')] True))
   \<and> object_prototype ''age'' = None
   \<and> filterDataSimple [Row [(''name'', JStr ''Alice'')] True, Row [(''name'', JStr ''Bob'')] True]
        ''al'' [(''age'', ''3'')] = []"
  using missing_column_filter_returns_no_rows
    [of "''age''" "''3''" "[(''age'', ''3'')]"
        "[Row [(''name'', JStr ''Alice'')] True, Row [(''name'', JStr ''Bob'')] True]" "''al''"]
  by (simp add: trim_def is_space_def object_prototype_def)

text \<open>
  Claim C3 as stated fails: for a filter on the column \<open>age\<close>, which no row has, the
  function returns a row set, the empty one, and not an error. For a filter on the name
  \<open>constructor\<close>, which no row has either but every row inherits, it returns the rows whose
  inherited value matches, here all of them.
\<close>

theorem missing_column_counterexample:
  "filterDataSimple [Row [(''name'', JStr ''Alice'')] True, Row [(''name'', JStr ''Bob'')] True] []
      [(''age'', ''3'')] = []
   \<and> filterDataSimple [Row [(''name'', JStr ''Alice'')] True, Row [(''name'', JStr ''Bob'')] True] []
      [(''constructor'', ''object'')]
     = [Row [(''name'', JStr ''Alice'')] True, Row [(''name'', JStr ''Bob'')] True]"
  by code_simp

section \<open>Properties of the store and of the table's reaction to it\<close>

lemma removeFile_current:
  "currentFileId (removeFile store h) \<noteq> Some h"
proof -
  let ?remaining = "filter (\<lambda>f. file_id f \<noteq> h) (files store)"
  have "file_id (?remaining ! 0) \<noteq> h" if "0 < length ?remaining"
  proof -
    have "?remaining ! 0 \<in> set ?remaining" using that by (rule nth_mem)
    then show ?thesis by simp
  qed
  then show ?thesis by (auto simp: removeFile_def Let_def)
qed

lemmas store_eval = processSingleFile_def addFile_def initialStore_def updateFile_def
  setParsedData_def setFileStats_def setCurrentFile_def prepareColumns_def example_analysis_def

text \<open>
  Removing a file deletes its entry from every map of the store and from the list of
  files, and the removed identifier is no longer the current file; reading the parsed
  data of the removed identifier finds nothing.
\<close>

lemma removeFile_clears_handle:
  "parsedData (removeFile store h) h = None
   \<and> filteredData (removeFile store h) h = None
   \<and> columns (removeFile store h) h = None
   \<and> filters (removeFile store h) h = None
   \<and> sortConfig (removeFile store h) h = None
   \<and> selectedRows (removeFile store h) h = None
   \<and> fileStats (removeFile store h) h = None
   \<and> h \<notin> file_id ` set (files (removeFile store h))
   \<and> currentFileId (removeFile store h) \<noteq> Some h
   \<and> table_parsedData (setCurrentFile (removeFile store h) h)
       = (if h = [] then Some [] else None)"
  using removeFile_current [of store h]
  by (auto simp: removeFile_def Let_def table_parsedData_def setCurrentFile_def)

lemma filter_block_undefined: "filter_block None st = st"
  by (simp add: filter_block_def)


text \<open>
  Claim C6. The quality report counts the pieces of the content between line feeds, less
  one, while the rows are built from the lines that are not blank, less the header. For a
  file that ends with a line feed the two differ: the content with the header \<open>a\<close>, the
  row \<open>1\<close> and a final line feed is loaded with one row and \<open>valid_rows = 2\<close>.
\<close>

theorem valid_rows_counts_trailing_newline:
  "(case processSingleFile (addFile initialStore ''f1'' ''t.csv'' ''/tmp/t.csv'' 4) ''f1''
           (''a'' @ [CHR 0x0A] @ ''1'' @ [CHR 0x0A]) 1 1 [example_analysis ''a'' ''number'']
    of Inl e \<Rightarrow> None
     | Inr s \<Rightarrow> Some (map_option (\<lambda>st. valid_rows (fs_qualityReport st)) (fileStats s ''f1''),
                      parsedData s ''f1''))
   = Some (Some 2, Some [Row [(''id'', JNum 0), (''a'', JStr ''1'')] True])"
  by (simp add: store_eval parse_eval Let_def)


section \<open>Properties of the query functions on arrays in memory\<close>

lemma alloc_frame:
  "a < used h \<Longrightarrow> arrays (snd (alloc h xs)) a = arrays h a"
  by (simp add: alloc_def)

lemma alloc_result:
  "fst (alloc h xs) = used h" "arrays (snd (alloc h xs)) (used h) = xs"
  "used (snd (alloc h xs)) = Suc (used h)"
  by (simp_all add: alloc_def)

lemma filterDataSimple_ref_frame:
  "a < used h \<Longrightarrow> arrays (snd (filterDataSimple_ref h data g cf)) a = arrays h a"
  by (simp add: filterDataSimple_ref_def Let_def alloc_frame)

lemma filterDataSimple_ref_result:
  "arrays (snd (filterDataSimple_ref h data g cf)) (fst (filterDataSimple_ref h data g cf))
     = filterDataSimple (arrays h data) g cf"
  by (simp add: filterDataSimple_ref_def filterDataSimple_def Let_def alloc_result)

lemma filterDataSimple_ref_address:
  "fst (filterDataSimple_ref h data g cf) =
     (if arrays h data \<noteq> [] \<and> toLowerCase (trim g) = []
         \<and> filter (\<lambda>(_, v). trim v \<noteq> []) cf = []
      then data else used h)"
  by (simp add: filterDataSimple_ref_def Let_def alloc_result)

lemma sortData_ref_frame:
  "a < used h \<Longrightarrow> arrays (snd (sortData_ref lc h data column direction)) a = arrays h a"
  by (simp add: sortData_ref_def sort_in_place_def alloc_def)

lemma sortData_ref_result:
  "arrays (snd (sortData_ref lc h data column direction))
      (fst (sortData_ref lc h data column direction))
     = sortData lc (arrays h data) column direction"
  by (simp add: sortData_ref_def sortData_def sort_in_place_def alloc_def)

lemma sortData_ref_address:
  "fst (sortData_ref lc h data column direction) = (if column = [] then data else used h)"
  by (simp add: sortData_ref_def sort_in_place_def alloc_def)

lemma paginateData_ref_frame:
  "a < used h \<Longrightarrow> arrays (snd (paginateData_ref h data page sz)) a = arrays h a"
  by (simp add: paginateData_ref_def Let_def alloc_frame)

lemma paginateData_ref_result:
  "arrays (snd (paginateData_ref h data page sz)) (fst (paginateData_ref h data page sz))
     = paginateData (arrays h data) page sz"
  "fst (paginateData_ref h data page sz) = used h"
  by (simp_all add: paginateData_ref_def paginateData_def Let_def alloc_result)

lemmas heap_eval = filterDataSimple_ref_def sortData_ref_def paginateData_ref_def alloc_def
  sort_in_place_def

text \<open>
  Claim C9, as amended. No query function writes to an array that existed before the call:
  every such array, the input among them, has the same elements in the same order
  afterwards. The array that a function returns holds what the function computes from the
  input. \<open>paginateData\<close> returns a new array. \<open>sortData\<close> returns a new array, the copy that
  it sorts, when a sort column is given, and the input array itself when the column name
  is empty. \<open>filterDataSimple\<close> returns the input array itself when the data is not empty
  and no filter is active (the trimmed global filter is empty and every column filter is
  blank), and a new array otherwise.
\<close>

theorem query_functions_keep_arrays:
  assumes "a < used h"
  shows "arrays (snd (filterDataSimple_ref h data g cf)) a = arrays h a
       \<and> arrays (snd (sortData_ref lc h data column direction)) a = arrays h a
       \<and> arrays (snd (paginateData_ref h data page sz)) a = arrays h a
       \<and> arrays (snd (filterDataSimple_ref h data g cf)) (fst (filterDataSimple_ref h data g cf))
           = filterDataSimple (arrays h data) g cf
       \<and> arrays (snd (sortData_ref lc h data column direction))
             (fst (sortData_ref lc h data column direction))
           = sortData lc (arrays h data) column direction
       \<and> arrays (snd (paginateData_ref h data page sz)) (fst (paginateData_ref h data page sz))
           = paginateData (arrays h data) page sz
       \<and> fst (filterDataSimple_ref h data g cf) =
           (if arrays h data \<noteq> [] \<and> toLowerCase (trim g) = []
               \<and> filter (\<lambda>(_, v). trim v \<noteq> []) cf = []
            then data else used h)
       \<and> fst (sortData_ref lc h data column direction) = (if column = [] then data else used h)
       \<and> fst (paginateData_ref h data page sz) = used h"
  by (intro conjI filterDataSimple_ref_frame sortData_ref_frame paginateData_ref_frame
        filterDataSimple_ref_result sortData_ref_result paginateData_ref_result
        filterDataSimple_ref_address sortData_ref_address assms)

text \<open>Sorting the array at address 0 leaves it as it was; the result is the new array 1.\<close>

theorem query_functions_keep_arrays_witness:
  "(0::nat) < used \<lparr> arrays = (\<lambda>_. [])(0 := [Row [(''n'', JStr ''x'')] True, Row [(''n'', JStr ''a'')] True]), used = 1 \<rparr>
   \<and> sortData_ref lexCompare
        \<lparr> arrays = (\<lambda>_. [])(0 := [Row [(''n'', JStr ''x'')] True, Row [(''n'', JStr ''a'')] True]), used = 1 \<rparr>
        0 ''n'' ''asc''
     = (1, \<lparr> arrays = (\<lambda>_. [])(0 := [Row [(''n'', JStr ''x'')] True, Row [(''n'', JStr ''a'')] True],
                                1 := [Row [(''n'', JStr ''a'')] True, Row [(''n'', JStr ''x'')] True]), used = 2 \<rparr>)
   \<and> arrays (snd (sortData_ref lexCompare
        \<lparr> arrays = (\<lambda>_. [])(0 := [Row [(''n'', JStr ''x'')] True, Row [(''n'', JStr ''a'')] True]), used = 1 \<rparr>
        0 ''n'' ''asc'')) 0 = [Row [(''n'', JStr ''x'')] True, Row [(''n'', JStr ''a'')] True]"
  using query_functions_keep_arrays
    [of 0 "\<lparr> arrays = (\<lambda>_. [])(0 := [Row [(''n'', JStr ''x'')] True, Row [(''n'', JStr ''a'')] True]), used = 1 \<rparr>"
        0 "[]" "[]" lexCompare "''n''" "''asc''" 1 1]
  by (simp add: heap_eval sort_eval)

text \<open>
  Claim C9 as stated fails in its last part: without a sort column \<open>sortData\<close> returns the
  array it was given (address 0, allocated before the call), not a new one, and so does
  \<open>filterDataSimple\<close> without filters.
\<close>

theorem returns_input_array_counterexample:
  "fst (sortData_ref lexCompare
          \<lparr> arrays = (\<lambda>_. [])(0 := [Row [(''n'', JStr ''x'')] True]), used = 1 \<rparr> 0 [] ''asc'') = 0
   \<and> fst (filterDataSimple_ref
          \<lparr> arrays = (\<lambda>_. [])(0 := [Row [(''n'', JStr ''x'')] True]), used = 1 \<rparr> 0 [] []) = 0
   \<and> used \<lparr> arrays = (\<lambda>_. [])(0 := [Row [(''n'', JStr ''x'')] True]), used = 1 \<rparr> = 1"
  by (simp add: heap_eval toLowerCase_def trim_def)



end
